theory Spec2Isabelle
  imports Complex_Main
begin

section \<open>JavaScript values\<close>

text \<open>
  The logger of \<^verbatim>\<open>src/logger.js\<close> is dynamically typed: a level may be given as a name,
  a number, a numeric string or anything else, and the arguments of a log call are values
  of any kind. The embedding keeps two value types.

  \<^item> \<open>jsval\<close>: the values a level or a threshold can be: \<^verbatim>\<open>undefined\<close>, \<^verbatim>\<open>null\<close>,
    booleans, numbers, strings, and the built-in objects that a property read of
    \<^verbatim>\<open>LevelNums\<close> or \<^verbatim>\<open>LevelNames\<close> can return through the prototype chain.
  \<^item> \<open>arg\<close> (below): the arguments of a log call.

  A number is its exact value: \<open>Fin q\<close> for a finite one, with both zeros as \<open>Fin 0\<close>
  (the logger never tells them apart). Strings are lists of ASCII characters.
  \<open>ObjectMember k\<close> is what the inherited property \<open>k\<close> reads as on a plain object
  (a method of \<^verbatim>\<open>Object.prototype\<close>, its constructor, or for \<^verbatim>\<open>__proto__\<close> the prototype
  itself), \<open>ArrayMember k\<close> the same on an array.
\<close>

datatype jsnum = NaN | NegInf | Fin rat | PosInf

datatype builtin = ObjectMember string | ArrayMember string

datatype jsval = Undefined | Null | Bool bool | Num jsnum | Str string | Ref builtin

subsection \<open>Strings\<close>

definition toLowerCase_char :: "char \<Rightarrow> char" where
  "toLowerCase_char c =
     (let n = (of_char c :: nat) in if 65 \<le> n \<and> n \<le> 90 then char_of (n + 32) else c)"

definition toLowerCase :: "string \<Rightarrow> string" where
  "toLowerCase s = map toLowerCase_char s"

text \<open>The comparison of two strings by \<^verbatim>\<open><\<close>: lexicographic on the character codes.\<close>

fun str_lt :: "string \<Rightarrow> string \<Rightarrow> bool" where
  "str_lt [] [] = False"
| "str_lt [] (d # t) = True"
| "str_lt (c # s) [] = False"
| "str_lt (c # s) (d # t) =
     (if (of_char c :: nat) < of_char d then True
      else if (of_char d :: nat) < of_char c then False
      else str_lt s t)"

subsection \<open>Conversion of a string to a number\<close>

text \<open>
  \<^verbatim>\<open>StringToNumber\<close> of the language: white space is trimmed, the empty string is 0, then
  comes a hexadecimal, octal or binary literal without sign, or a decimal literal with an
  optional sign, fraction and exponent, or \<^verbatim>\<open>Infinity\<close>. Anything else is \<^verbatim>\<open>NaN\<close>.
  The value is kept exact: the rounding to a binary64 number is not modelled, so a literal
  below the smallest positive number keeps its sign here while the runtime rounds it to
  zero. White space is the ASCII white space only.
\<close>

definition is_white :: "char \<Rightarrow> bool" where
  "is_white c = ((of_char c :: nat) \<in> {9, 10, 11, 12, 13, 32})"

definition trim :: "string \<Rightarrow> string" where
  "trim s = rev (dropWhile is_white (rev (dropWhile is_white s)))"

definition digit_value :: "char \<Rightarrow> nat option" where
  "digit_value c =
     (let n = (of_char c :: nat) in
      if 48 \<le> n \<and> n \<le> 57 then Some (n - 48)
      else if 97 \<le> n \<and> n \<le> 102 then Some (n - 87)
      else if 65 \<le> n \<and> n \<le> 70 then Some (n - 55)
      else None)"

definition is_digit :: "nat \<Rightarrow> char \<Rightarrow> bool" where
  "is_digit base c = (case digit_value c of None \<Rightarrow> False | Some d \<Rightarrow> d < base)"

definition digits_value :: "nat \<Rightarrow> string \<Rightarrow> nat" where
  "digits_value base s = foldl (\<lambda>acc c. acc * base + the (digit_value c)) 0 s"

definition radix_literal :: "nat \<Rightarrow> string \<Rightarrow> jsnum" where
  "radix_literal base s =
     (if s \<noteq> [] \<and> list_all (is_digit base) s then Fin (of_nat (digits_value base s)) else NaN)"

definition exponent_part :: "string \<Rightarrow> int option" where
  "exponent_part s =
     (case s of
        [] \<Rightarrow> Some 0
      | c # t \<Rightarrow>
          if c = CHR ''e'' \<or> c = CHR ''E'' then
            (let (neg, ds) = (case t of
                                d # u \<Rightarrow> if d = CHR ''-'' then (True, u)
                                         else if d = CHR ''+'' then (False, u) else (False, t)
                              | [] \<Rightarrow> (False, t))
             in if ds \<noteq> [] \<and> list_all (is_digit 10) ds
                then Some (if neg then - int (digits_value 10 ds) else int (digits_value 10 ds))
                else None)
          else None)"

definition scale10 :: "rat \<Rightarrow> int \<Rightarrow> rat" where
  "scale10 q e = (if 0 \<le> e then q * 10 ^ nat e else q / 10 ^ nat (- e))"

definition unsigned_decimal :: "string \<Rightarrow> jsnum" where
  "unsigned_decimal s =
     (if s = ''Infinity'' then PosInf
      else
        let ip = takeWhile (is_digit 10) s;
            r1 = dropWhile (is_digit 10) s;
            (fp, r2) = (case r1 of
                          c # t \<Rightarrow> if c = CHR ''.''
                                   then (takeWhile (is_digit 10) t, dropWhile (is_digit 10) t)
                                   else ([], r1)
                        | [] \<Rightarrow> ([], r1))
        in if ip = [] \<and> fp = [] then NaN
           else (case exponent_part r2 of
                   None \<Rightarrow> NaN
                 | Some e \<Rightarrow>
                     Fin (scale10 (of_nat (digits_value 10 (ip @ fp)) / 10 ^ length fp) e)))"

fun negate :: "jsnum \<Rightarrow> jsnum" where
  "negate NaN = NaN"
| "negate NegInf = PosInf"
| "negate PosInf = NegInf"
| "negate (Fin q) = Fin (- q)"

definition StringToNumber :: "string \<Rightarrow> jsnum" where
  "StringToNumber s0 =
     (let s = trim s0 in
      case s of
        [] \<Rightarrow> Fin 0
      | c # t \<Rightarrow>
          if c = CHR ''0'' \<and> t \<noteq> [] \<and> hd t \<in> {CHR ''x'', CHR ''X''} then radix_literal 16 (tl t)
          else if c = CHR ''0'' \<and> t \<noteq> [] \<and> hd t \<in> {CHR ''o'', CHR ''O''} then radix_literal 8 (tl t)
          else if c = CHR ''0'' \<and> t \<noteq> [] \<and> hd t \<in> {CHR ''b'', CHR ''B''} then radix_literal 2 (tl t)
          else if c = CHR ''-'' then negate (unsigned_decimal t)
          else if c = CHR ''+'' then unsigned_decimal t
          else unsigned_decimal s)"

subsection \<open>Conversions and comparison of values\<close>

text \<open>
  The string a built-in object converts to: a function prints its source, the object
  prototype prints as \<^verbatim>\<open>[object Object]\<close>, the array prototype (an empty array) as the
  empty string.
\<close>

definition builtin_string :: "builtin \<Rightarrow> string" where
  "builtin_string b =
     (case b of
        ObjectMember k \<Rightarrow>
          if k = ''__proto__'' then ''[object Object]''
          else if k = ''constructor'' then ''function Object() { [native code] }''
          else ''function '' @ k @ ''() { [native code] }''
      | ArrayMember k \<Rightarrow>
          if k = ''__proto__'' then ''''
          else if k = ''constructor'' then ''function Array() { [native code] }''
          else ''function '' @ k @ ''() { [native code] }'')"

definition ToPrimitive :: "jsval \<Rightarrow> jsval" where
  "ToPrimitive v = (case v of Ref b \<Rightarrow> Str (builtin_string b) | _ \<Rightarrow> v)"

definition ToNumber :: "jsval \<Rightarrow> jsnum" where
  "ToNumber v =
     (case ToPrimitive v of
        Undefined \<Rightarrow> NaN
      | Null \<Rightarrow> Fin 0
      | Bool b \<Rightarrow> (if b then Fin 1 else Fin 0)
      | Num n \<Rightarrow> n
      | Str s \<Rightarrow> StringToNumber s
      | Ref b \<Rightarrow> NaN)"

text \<open>\<^verbatim>\<open>a < b\<close> on numbers; a comparison with \<^verbatim>\<open>NaN\<close> is false.\<close>

fun num_lt :: "jsnum \<Rightarrow> jsnum \<Rightarrow> bool" where
  "num_lt NaN y = False"
| "num_lt x NaN = False"
| "num_lt NegInf y = (y \<noteq> NegInf)"
| "num_lt x NegInf = False"
| "num_lt PosInf y = False"
| "num_lt x PosInf = True"
| "num_lt (Fin p) (Fin q) = (p < q)"

text \<open>
  \<^verbatim>\<open>a < b\<close> on values: two strings are compared as strings, anything else as numbers.
  \<^verbatim>\<open>a > b\<close> is \<^verbatim>\<open>b < a\<close>.
\<close>

definition js_lt :: "jsval \<Rightarrow> jsval \<Rightarrow> bool" where
  "js_lt a b =
     (case (ToPrimitive a, ToPrimitive b) of
        (Str s, Str t) \<Rightarrow> str_lt s t
      | (x, y) \<Rightarrow> num_lt (ToNumber x) (ToNumber y))"

definition js_gt :: "jsval \<Rightarrow> jsval \<Rightarrow> bool" where
  "js_gt a b = js_lt b a"

subsection \<open>Property keys\<close>

text \<open>
  The decimal numeral of a natural number, and the property key of a value. The key of a
  number that is not an integer (or is one of 22 digits or more) has a decimal point or an
  exponent and names no property of the two level tables: it is \<open>None\<close> here.
\<close>

fun decimal :: "nat \<Rightarrow> string" where
  "decimal n = (if n < 10 then [char_of (48 + n)] else decimal (n div 10) @ [char_of (48 + n mod 10)])"

declare decimal.simps [simp del]

definition NumberToString :: "jsnum \<Rightarrow> string option" where
  "NumberToString n =
     (case n of
        NaN \<Rightarrow> Some ''NaN''
      | PosInf \<Rightarrow> Some ''Infinity''
      | NegInf \<Rightarrow> Some ''-Infinity''
      | Fin q \<Rightarrow>
          (let i = \<lfloor>q\<rfloor> in
           if of_int i \<noteq> q \<or> 10 ^ 21 \<le> \<bar>i\<bar> then None
           else if i < 0 then Some (CHR ''-'' # decimal (nat (- i)))
           else Some (decimal (nat i))))"

definition ToPropertyKey :: "jsval \<Rightarrow> string option" where
  "ToPropertyKey v =
     (case v of
        Undefined \<Rightarrow> Some ''undefined''
      | Null \<Rightarrow> Some ''null''
      | Bool b \<Rightarrow> Some (if b then ''true'' else ''false'')
      | Num n \<Rightarrow> NumberToString n
      | Str s \<Rightarrow> Some s
      | Ref b \<Rightarrow> Some (builtin_string b))"

section \<open>The level registry\<close>

text \<open>
  \<^verbatim>\<open>LevelNums\<close> is an object literal; \<^verbatim>\<open>LevelNames\<close> is the array of its keys sorted
  by ordinal. The \<^verbatim>\<open>in\<close> operator and a property read follow the prototype chain, so
  the names inherited from \<^verbatim>\<open>Object.prototype\<close> and \<^verbatim>\<open>Array.prototype\<close> (ECMAScript
  2023) are part of both tables.
\<close>

definition LevelNums :: "(string \<times> nat) list" where
  "LevelNums = [(''error'', 0), (''warn'', 1), (''info'', 2), (''log'', 3), (''debug'', 4)]"

definition LevelNames :: "string list" where
  "LevelNames = sort_key (\<lambda>k. the (map_of LevelNums k)) (map fst LevelNums)"

definition Object_prototype_keys :: "string list" where
  "Object_prototype_keys =
     [''constructor'', ''__defineGetter__'', ''__defineSetter__'', ''hasOwnProperty'',
      ''__lookupGetter__'', ''__lookupSetter__'', ''isPrototypeOf'', ''propertyIsEnumerable'',
      ''toString'', ''valueOf'', ''__proto__'', ''toLocaleString'']"

definition Array_prototype_keys :: "string list" where
  "Array_prototype_keys =
     [''constructor'', ''at'', ''concat'', ''copyWithin'', ''fill'', ''find'', ''findIndex'',
      ''findLast'', ''findLastIndex'', ''lastIndexOf'', ''pop'', ''push'', ''reverse'', ''shift'',
      ''unshift'', ''slice'', ''sort'', ''splice'', ''includes'', ''indexOf'', ''join'', ''keys'',
      ''entries'', ''values'', ''forEach'', ''filter'', ''flat'', ''flatMap'', ''map'', ''every'',
      ''some'', ''reduce'', ''reduceRight'', ''toLocaleString'', ''toString'', ''toReversed'',
      ''toSorted'', ''toSpliced'', ''with'']"

text \<open>The own properties of the array \<^verbatim>\<open>LevelNames\<close>: its indices and \<^verbatim>\<open>length\<close>.\<close>

definition LevelNames_own :: "(string \<times> jsval) list" where
  "LevelNames_own =
     map (\<lambda>i. (decimal i, Str (LevelNames ! i))) [0 ..< length LevelNames]
     @ [(''length'', Num (Fin (of_nat (length LevelNames))))]"

text \<open>\<^verbatim>\<open>value in LevelNums\<close> and \<^verbatim>\<open>LevelNums[value]\<close>.\<close>

definition in_LevelNums :: "jsval \<Rightarrow> bool" where
  "in_LevelNums v =
     (case ToPropertyKey v of
        None \<Rightarrow> False
      | Some k \<Rightarrow> k \<in> set (map fst LevelNums) \<or> k \<in> set Object_prototype_keys)"

definition LevelNums_get :: "jsval \<Rightarrow> jsval" where
  "LevelNums_get v =
     (case ToPropertyKey v of
        None \<Rightarrow> Undefined
      | Some k \<Rightarrow>
          (case map_of LevelNums k of
             Some n \<Rightarrow> Num (Fin (of_nat n))
           | None \<Rightarrow> if k \<in> set Object_prototype_keys then Ref (ObjectMember k) else Undefined))"

text \<open>\<^verbatim>\<open>value in LevelNames\<close> and \<^verbatim>\<open>LevelNames[value]\<close>.\<close>

definition in_LevelNames :: "jsval \<Rightarrow> bool" where
  "in_LevelNames v =
     (case ToPropertyKey v of
        None \<Rightarrow> False
      | Some k \<Rightarrow> k \<in> set (map fst LevelNames_own) \<or> k \<in> set Array_prototype_keys
                  \<or> k \<in> set Object_prototype_keys)"

definition LevelNames_get :: "jsval \<Rightarrow> jsval" where
  "LevelNames_get v =
     (case ToPropertyKey v of
        None \<Rightarrow> Undefined
      | Some k \<Rightarrow>
          (case map_of LevelNames_own k of
             Some x \<Rightarrow> x
           | None \<Rightarrow> if k \<in> set Array_prototype_keys \<or> k = ''__proto__'' then Ref (ArrayMember k)
                     else if k \<in> set Object_prototype_keys then Ref (ObjectMember k)
                     else Undefined))"

text \<open>
  Modelled from the spec: \<^verbatim>\<open>Is.String\<close> of \<^verbatim>\<open>util/types.js\<close>, which is not in the source
  tree: the test that a value is textual.
\<close>

definition Is_String :: "jsval \<Rightarrow> bool" where
  "Is_String v = (case v of Str s \<Rightarrow> True | _ \<Rightarrow> False)"

text \<open>
  \<^verbatim>\<open>getLevelNumber(value)\<close>. The first argument is \<^verbatim>\<open>Defaults.logLevel\<close>, the process-wide
  default that the last line reads. On the values of \<open>jsval\<close> no step of the function
  raises. A Symbol, a BigInt and an object with its own conversion are not values of
  \<open>jsval\<close>: on a Symbol the comparison \<^verbatim>\<open>value < 0\<close> raises a type error, on a BigInt
  that is an index the coercion \<^verbatim>\<open>+value\<close> does, and nothing is stated here about them.
\<close>

definition getLevelNumber :: "jsval \<Rightarrow> jsval \<Rightarrow> jsval" where
  "getLevelNumber dflt value0 =
     (let value = (if Is_String value0
                   then (case value0 of Str s \<Rightarrow> Str (toLowerCase s) | _ \<Rightarrow> value0)
                   else value0) in
      if in_LevelNums value then LevelNums_get value
      else if in_LevelNames value then Num (ToNumber value)
      else if js_lt value (Num (Fin 0)) then Num (Fin (- 1))
      else dflt)"

text \<open>
  The initialisation of \<^verbatim>\<open>Defaults.logLevel\<close> from the environment. A variable of the
  environment is a string or absent, and the empty string is falsy. When the resolution
  runs, \<^verbatim>\<open>Defaults.logLevel\<close> still holds the raw text, which is therefore the fallback.
\<close>

definition env_set :: "string option \<Rightarrow> bool" where
  "env_set x = (case x of None \<Rightarrow> False | Some s \<Rightarrow> s \<noteq> [])"

definition Defaults_logLevel :: "string option \<Rightarrow> string option \<Rightarrow> string option \<Rightarrow> jsval" where
  "Defaults_logLevel DEBUG LOG_LEVEL LOGLEVEL =
     (let raw = (if env_set DEBUG then ''debug''
                 else if env_set LOG_LEVEL then the LOG_LEVEL
                 else if env_set LOGLEVEL then the LOGLEVEL
                 else ''info'')
      in getLevelNumber (Str raw) (Str raw))"

section \<open>Arguments of a log call\<close>

text \<open>
  An argument is a primitive value, an error object, a plain object (its own enumerable
  entries, in order), an array, or any other object (a function, an instance of a class),
  of which only the truth of its \<^verbatim>\<open>throwing\<close> property matters here.
  Of an error object the model keeps what \<^verbatim>\<open>formatError\<close> and \<^verbatim>\<open>prelog\<close> read:
  \<^verbatim>\<open>err.name\<close> (empty when falsy), \<^verbatim>\<open>err.constructor.name\<close>, the text the stack parser
  works on, and whether the object carries a truthy \<^verbatim>\<open>throwing\<close> property.
\<close>

record errobj =
  err_name :: string
  err_constructor_name :: string
  err_message :: string
  err_stack :: string
  err_throwing :: bool

datatype arg =
    Prim jsval
  | Err errobj
  | Obj "(string \<times> arg) list"
  | Arr "arg list"
  | Inst string bool

fun truthy :: "jsval \<Rightarrow> bool" where
  "truthy Undefined = False"
| "truthy Null = False"
| "truthy (Bool b) = b"
| "truthy (Num n) = (n \<noteq> NaN \<and> n \<noteq> Fin 0)"
| "truthy (Str s) = (s \<noteq> [])"
| "truthy (Ref b) = True"

definition arg_truthy :: "arg \<Rightarrow> bool" where
  "arg_truthy a = (case a of Prim v \<Rightarrow> truthy v | _ \<Rightarrow> True)"

text \<open>\<^verbatim>\<open>arg && arg.throwing\<close>, as a truth value.\<close>

definition has_throwing :: "arg \<Rightarrow> bool" where
  "has_throwing a =
     (case a of
        Prim v \<Rightarrow> False
      | Err e \<Rightarrow> err_throwing e
      | Obj entries \<Rightarrow> (case map_of entries ''throwing'' of None \<Rightarrow> False | Some v \<Rightarrow> arg_truthy v)
      | Arr xs \<Rightarrow> False
      | Inst n t \<Rightarrow> t)"

text \<open>
  Modelled from the spec: \<^verbatim>\<open>Is.Error\<close> and \<^verbatim>\<open>Is.PlainObject\<close> of \<^verbatim>\<open>util/types.js\<close>
  are the constructors \<open>Err\<close> and \<open>Obj\<close>, and \<^verbatim>\<open>Cast.toArray\<close>, which coerces a value to
  a list: an array is its elements, \<^verbatim>\<open>null\<close> and \<^verbatim>\<open>undefined\<close> are the empty list, any
  other value is a list of one.
\<close>

definition toArray :: "arg \<Rightarrow> arg list" where
  "toArray a =
     (case a of
        Arr xs \<Rightarrow> xs
      | Prim v \<Rightarrow> (if v = Undefined \<or> v = Null then [] else [a])
      | _ \<Rightarrow> [a])"

section \<open>External collaborators\<close>

text \<open>
  The compiled style set (\<^verbatim>\<open>this.chalks\<close>, built by \<^verbatim>\<open>hash-proxy.js\<close> and chalk), the
  stack parser and the format engine are outside the source tree. They are parameters:
  \<open>chalks cb level slot\<close> is the text transformer \<^verbatim>\<open>this.chalks[level][slot]\<close>,
  \<open>has_slot cb level key\<close> is \<^verbatim>\<open>key in this.chalks[level]\<close>, and \<open>parseStack cb err\<close> is
  the pair \<^verbatim>\<open>{stack, rawMessage}\<close>. Collaborators and the pluggable callables are
  functions that return; one that throws is outside the model.
\<close>

record collab =
  chalks :: "jsval \<Rightarrow> string \<Rightarrow> string \<Rightarrow> string"
  has_slot :: "jsval \<Rightarrow> string \<Rightarrow> bool"
  parseStack :: "errobj \<Rightarrow> string \<times> string"

definition newline :: string where
  "newline = [CHR 0x0A]"

fun join :: "string \<Rightarrow> string list \<Rightarrow> string" where
  "join sep [] = []"
| "join sep [x] = x"
| "join sep (x # y # ys) = x @ sep @ join sep (y # ys)"

text \<open>\<^verbatim>\<open>Logger.formatError(err, isSkipStack)\<close>.\<close>

definition formatError :: "collab \<Rightarrow> errobj \<Rightarrow> bool \<Rightarrow> string" where
  "formatError cb err isSkipStack =
     (let chlk = chalks cb (Str ''error'');
          (stack, rawMessage) = parseStack cb err;
          name = (if err_name err \<noteq> [] then err_name err else err_constructor_name err);
          lines = [join '': '' [chlk ''name'' name, chlk ''message'' rawMessage]];
          lines = (if \<not> isSkipStack then lines @ [chlk ''stack'' stack] else lines)
      in join newline lines)"

text \<open>
  \<^verbatim>\<open>Defaults.prelog(level, args)\<close>. \<open>prelog_arg\<close> is the callback of \<^verbatim>\<open>args.map\<close>: it
  returns the mapped value and the new value of the variable \<^verbatim>\<open>hasError\<close>.
  \<open>prelog_map\<close> runs it left to right, and the filter drops \<^verbatim>\<open>null\<close> and \<^verbatim>\<open>undefined\<close>.
\<close>

fun prelog_arg :: "collab \<Rightarrow> jsval \<Rightarrow> arg list \<Rightarrow> bool \<Rightarrow> arg \<Rightarrow> arg \<times> bool" where
  "prelog_arg cb level args hasError (Prim (Str s)) =
     (Prim (Str (chalks cb level ''string'' s)), hasError)"
| "prelog_arg cb level args hasError (Err e) =
     (Prim (Str (formatError cb e (list_ex has_throwing args))), True)"
| "prelog_arg cb level args hasError (Obj [(key, value)]) =
     (if key = ''throwing'' \<and> hasError then (Prim Null, hasError)
      else (case value of
              Prim (Str t) \<Rightarrow>
                if has_slot cb level key
                then (Prim (Str (chalks cb level ''string'' (key @ '': '' @ chalks cb level key t))),
                      hasError)
                else (Obj [(key, value)], hasError)
            | _ \<Rightarrow> (Obj [(key, value)], hasError)))"
| "prelog_arg cb level args hasError a = (a, hasError)"

fun prelog_map :: "collab \<Rightarrow> jsval \<Rightarrow> arg list \<Rightarrow> bool \<Rightarrow> arg list \<Rightarrow> arg list" where
  "prelog_map cb level args hasError [] = []"
| "prelog_map cb level args hasError (a # rest) =
     (let (r, hasError') = prelog_arg cb level args hasError a
      in r # prelog_map cb level args hasError' rest)"

definition not_nullish :: "arg \<Rightarrow> bool" where
  "not_nullish a = (a \<noteq> Prim Null \<and> a \<noteq> Prim Undefined)"

definition Defaults_prelog :: "collab \<Rightarrow> jsval \<Rightarrow> arg list \<Rightarrow> arg" where
  "Defaults_prelog cb level args = Arr (filter not_nullish (prelog_map cb level args False args))"

section \<open>The logger\<close>

text \<open>
  The state of a logger is its option object: the two streams, the configured level as it
  was given, and the three pluggable entries. \<^verbatim>\<open>opts.prelog\<close> is a function or not;
  \<^verbatim>\<open>opts.prefix\<close> is a function of the level name or a fixed value. A stream option is
  a writable stream, known by a number, or a value that is no stream and has no method
  \<^verbatim>\<open>write\<close>.
\<close>

datatype sink = Stream nat | NotStream

datatype prelog_opt = PrelogFn "jsval \<Rightarrow> arg list \<Rightarrow> arg" | PrelogNone

datatype prefix_opt = PrefixFn "jsval \<Rightarrow> arg" | PrefixVal arg

record logger =
  stdout :: sink
  stderr :: sink
  logLevel :: jsval
  prelog :: prelog_opt
  prefix :: prefix_opt
  format :: "arg list \<Rightarrow> string"

datatype error = ArgumentError string | TypeError string

text \<open>
  What a call does is the list of its events, in order: the writes to a stream and the
  invocations of the pluggable callables. A call that raises keeps the events before it.
\<close>

datatype event =
    Write nat string
  | CallPrelog jsval "arg list"
  | CallPrefix jsval
  | CallFormat "arg list"

type_synonym outcome = "error option \<times> event list"

text \<open>
  Modelled from the spec: \<^verbatim>\<open>Is.WriteableStream\<close> of \<^verbatim>\<open>util/types.js\<close>, which is not in
  the source tree: the test that a stream option is a writable sink.
\<close>

definition Is_WriteableStream :: "sink \<Rightarrow> bool" where
  "Is_WriteableStream s = (case s of Stream i \<Rightarrow> True | NotStream \<Rightarrow> False)"

text \<open>
  \<^verbatim>\<open>this.stdout.write(data)\<close> and \<^verbatim>\<open>this.stderr.write(data)\<close>. A value that is no stream
  has no method \<^verbatim>\<open>write\<close>: the call raises the type error of the runtime, whose text
  names the property read.
\<close>

definition stream_write :: "sink \<Rightarrow> string \<Rightarrow> string \<Rightarrow> outcome" where
  "stream_write s field data =
     (case s of
        Stream i \<Rightarrow> (None, [Write i data])
      | NotStream \<Rightarrow> (Some (TypeError (''this.'' @ field @ ''.write is not a function'')), []))"

definition Logger_write :: "logger \<Rightarrow> string \<Rightarrow> outcome" where
  "Logger_write lg data = stream_write (stdout lg) ''stdout'' data"

definition Logger_ewrite :: "logger \<Rightarrow> string \<Rightarrow> outcome" where
  "Logger_ewrite lg data = stream_write (stderr lg) ''stderr'' data"

text \<open>One statement after another: the second runs only when the first did not raise.\<close>

definition andThen :: "outcome \<Rightarrow> outcome \<Rightarrow> outcome" where
  "andThen a b = (case a of (Some e, evs) \<Rightarrow> (Some e, evs) | (None, evs) \<Rightarrow> (fst b, evs @ snd b))"

text \<open>
  \<^verbatim>\<open>this.format(...args)\<close>, the call of \<^verbatim>\<open>opts.prelog\<close> with the replacement of the
  argument list by what it returns, and \<^verbatim>\<open>getOrCall(opts.prefix, this, levelName)\<close>, each
  with the events it leaves.
\<close>

definition Logger_format :: "logger \<Rightarrow> arg list \<Rightarrow> string \<times> event list" where
  "Logger_format lg args = (format lg args, [CallFormat args])"

definition run_prelog :: "logger \<Rightarrow> jsval \<Rightarrow> arg list \<Rightarrow> arg list \<times> event list" where
  "run_prelog lg levelName args =
     (case prelog lg of
        PrelogFn f \<Rightarrow>
          (let result = f levelName args
           in (if result \<noteq> Prim Undefined then toArray result else args,
               [CallPrelog levelName args]))
      | PrelogNone \<Rightarrow> (args, []))"

definition getOrCall :: "prefix_opt \<Rightarrow> jsval \<Rightarrow> arg \<times> event list" where
  "getOrCall thing levelName =
     (case thing of
        PrefixFn g \<Rightarrow> (g levelName, [CallPrefix levelName])
      | PrefixVal x \<Rightarrow> (x, []))"

definition print :: "logger \<Rightarrow> arg list \<Rightarrow> outcome" where
  "print lg args =
     (let (text, ev) = Logger_format lg args in andThen (None, ev) (Logger_write lg (text @ newline)))"

definition eprint :: "logger \<Rightarrow> arg list \<Rightarrow> outcome" where
  "eprint lg args =
     (let (text, ev) = Logger_format lg args in andThen (None, ev) (Logger_ewrite lg (text @ newline)))"

definition get_logLevel :: "jsval \<Rightarrow> logger \<Rightarrow> jsval" where
  "get_logLevel dflt lg = getLevelNumber dflt (logLevel lg)"

definition set_logLevel :: "logger \<Rightarrow> jsval \<Rightarrow> logger" where
  "set_logLevel lg n = lg\<lparr>logLevel := n\<rparr>"



text \<open>
  The function \<^verbatim>\<open>log(level, ...args)\<close>, bound to the five level methods. The first
  argument of the model is \<^verbatim>\<open>Defaults.logLevel\<close>. An empty text stands for both falsy
  results, \<^verbatim>\<open>null\<close> of the prefix and \<^verbatim>\<open>''\<close> of the body.
\<close>

definition log_dispatch :: "jsval \<Rightarrow> logger \<Rightarrow> jsval \<Rightarrow> arg list \<Rightarrow> outcome" where
  "log_dispatch dflt lg level0 args0 =
     (let level = getLevelNumber dflt level0 in
      if js_gt level (get_logLevel dflt lg) then (None, [])
      else
        let method = (if js_lt level (Num (Fin 2)) then Logger_ewrite else Logger_write);
            levelName = LevelNames_get level;
            (args, ev1) = run_prelog lg levelName args0;
            (pv, ev2) = getOrCall (prefix lg) levelName;
            prefixes = toArray pv;
            (prefix_text, ev3) = (if prefixes \<noteq> [] then Logger_format lg prefixes else ([], []));
            (body, ev4) = (if args \<noteq> [] then Logger_format lg args else ([], []))
        in andThen (None, ev1 @ ev2 @ ev3 @ ev4)
             (andThen
                (if prefix_text \<noteq> []
                 then method lg (prefix_text @ (if body \<noteq> [] then '' '' else []))
                 else (None, []))
                (method lg (body @ newline))))"





section \<open>Notions used in the statements\<close>

text \<open>
  A letter-case variant of a character is the character itself or, for a lower-case
  letter, its upper-case form; a variant of a word varies each character on its own.
\<close>

definition lower_letter :: "char \<Rightarrow> bool" where
  "lower_letter d = (97 \<le> (of_char d :: nat) \<and> (of_char d :: nat) \<le> 122)"

definition case_variant_char :: "char \<Rightarrow> char \<Rightarrow> bool" where
  "case_variant_char c d = (c = d \<or> (lower_letter d \<and> (of_char c :: nat) + 32 = of_char d))"

definition case_variant :: "string \<Rightarrow> string \<Rightarrow> bool" where
  "case_variant t s = list_all2 case_variant_char t s"

text \<open>The stream writes among the events of a call, in order.\<close>

fun writes :: "event list \<Rightarrow> (nat \<times> string) list" where
  "writes [] = []"
| "writes (Write i d # es) = (i, d) # writes es"
| "writes (e # es) = writes es"

definition is_Err :: "arg \<Rightarrow> bool" where
  "is_Err a = (case a of Err e \<Rightarrow> True | _ \<Rightarrow> False)"

text \<open>A logger with every callable pluggable entry, for concrete runs.\<close>

definition example_logger :: logger where
  "example_logger =
     \<lparr> stdout = Stream 1, stderr = Stream 2, logLevel = Num (Fin 2),
       prelog = PrelogFn (\<lambda>name xs. Arr xs), prefix = PrefixFn (\<lambda>name. Prim (Str ''>'')),
       format = (\<lambda>xs. ''out'') \<rparr>"



text \<open>
  The two lines of a rendered error, and what the default prelog keeps of a stretch \<open>xs\<close>
  of the argument list \<open>args\<close> when \<^verbatim>\<open>hasError\<close> is \<open>h\<close> at its start.
\<close>

definition display_name :: "errobj \<Rightarrow> string" where
  "display_name e = (if err_name e \<noteq> [] then err_name e else err_constructor_name e)"

definition name_message_line :: "collab \<Rightarrow> errobj \<Rightarrow> string" where
  "name_message_line cb e =
     chalks cb (Str ''error'') ''name'' (display_name e) @ '': ''
     @ chalks cb (Str ''error'') ''message'' (snd (parseStack cb e))"

definition stack_line :: "collab \<Rightarrow> errobj \<Rightarrow> string" where
  "stack_line cb e = chalks cb (Str ''error'') ''stack'' (fst (parseStack cb e))"

definition kept :: "collab \<Rightarrow> jsval \<Rightarrow> arg list \<Rightarrow> bool \<Rightarrow> arg list \<Rightarrow> arg list" where
  "kept cb level args h xs = filter not_nullish (prelog_map cb level args h xs)"

text \<open>Collaborators and an error object for concrete runs.\<close>

definition example_collab :: collab where
  "example_collab =
     \<lparr> chalks = (\<lambda>level slot text. ''<'' @ slot @ ''>'' @ text),
       has_slot = (\<lambda>level key. key \<in> set [''prefix'', ''string'', ''file'']),
       parseStack = (\<lambda>e. (err_stack e, err_message e)) \<rparr>"

definition example_error :: errobj where
  "example_error =
     \<lparr> err_name = ''Error'', err_constructor_name = ''Error'', err_message = ''boom'',
       err_stack = ''at main'', err_throwing = False \<rparr>"

section \<open>Level resolution\<close>

lemma LevelNames_eq: "LevelNames = [''error'', ''warn'', ''info'', ''log'', ''debug'']"
  by (simp add: LevelNames_def LevelNums_def)

lemma toLowerCase_char_variant:
  assumes "case_variant_char c d" and "lower_letter d"
  shows "toLowerCase_char c = d"
proof (cases "c = d")
  case True
  with assms(2) show ?thesis by (simp add: toLowerCase_char_def lower_letter_def Let_def)
next
  case False
  with assms(1) have eq: "(of_char c :: nat) + 32 = of_char d"
    and rng: "97 \<le> (of_char d :: nat)" "(of_char d :: nat) \<le> 122"
    by (simp_all add: case_variant_char_def lower_letter_def)
  from eq rng have "65 \<le> (of_char c :: nat) \<and> (of_char c :: nat) \<le> 90" by arith
  moreover have "char_of ((of_char c :: nat) + 32) = d"
    by (simp only: eq char_of_char)
  ultimately show ?thesis by (simp add: toLowerCase_char_def Let_def)
qed

lemma toLowerCase_variant:
  "list_all2 case_variant_char t s \<Longrightarrow> list_all lower_letter s \<Longrightarrow> toLowerCase t = s"
  unfolding toLowerCase_def
  by (induction t s rule: list_all2_induct) (simp_all add: toLowerCase_char_variant)

lemma level_name_lower: "(name, n) \<in> set LevelNums \<Longrightarrow> list_all lower_letter name"
  by (auto simp add: LevelNums_def lower_letter_def)

lemma ordinal_bound: "(name, n) \<in> set LevelNums \<Longrightarrow> n < 5"
  by (auto simp add: LevelNums_def)

lemma LevelNums_name:
  assumes "(name, n) \<in> set LevelNums"
  shows "in_LevelNums (Str name)" and "LevelNums_get (Str name) = Num (Fin (of_nat n))"
  using assms
  by (auto simp add: LevelNums_def in_LevelNums_def ToPropertyKey_def LevelNums_get_def)

lemma getLevelNumber_lowered:
  assumes "toLowerCase t = name" and "(name, n) \<in> set LevelNums"
  shows "getLevelNumber dflt (Str t) = Num (Fin (of_nat n))"
  using assms by (simp add: getLevelNumber_def Is_String_def LevelNums_name)

lemma getLevelNumber_lower_name:
  assumes "(name, n) \<in> set LevelNums"
  shows "getLevelNumber dflt (Str name) = Num (Fin (of_nat n))"
proof -
  have "list_all2 case_variant_char name name"
    by (simp add: list_all2_same case_variant_char_def)
  moreover from assms have "list_all lower_letter name" by (rule level_name_lower)
  ultimately have "toLowerCase name = name" by (rule toLowerCase_variant)
  then show ?thesis using assms by (rule getLevelNumber_lowered)
qed

lemma decimal_digit: "n < 10 \<Longrightarrow> decimal n = [char_of (48 + n)]"
  by (simp add: decimal.simps)

lemma getLevelNumber_ordinal:
  assumes "n < 5"
  shows "getLevelNumber dflt (Num (Fin (of_nat n))) = Num (Fin (of_nat n))"
proof -
  from assms have "n = 0 \<or> n = 1 \<or> n = 2 \<or> n = 3 \<or> n = 4" by arith
  then show ?thesis
    by (elim disjE) (simp_all add: getLevelNumber_def Is_String_def in_LevelNums_def in_LevelNames_def
      ToPropertyKey_def NumberToString_def decimal_digit LevelNums_def Object_prototype_keys_def
      LevelNames_own_def LevelNames_eq ToNumber_def ToPrimitive_def upt_rec)
qed

lemma getLevelNumber_minus_one: "getLevelNumber dflt (Num (Fin (- 1))) = Num (Fin (- 1))"
  by code_simp

text \<open>
  The default at initialisation: \<^verbatim>\<open>info\<close> with an empty environment, \<^verbatim>\<open>debug\<close> when
  \<^verbatim>\<open>DEBUG\<close> is set, the resolved override otherwise. An override that resolves to nothing
  stays as the raw text, since the fallback of the resolution reads the variable that is
  being initialised.
\<close>

lemma Defaults_logLevel_values:
  "Defaults_logLevel None None None = Num (Fin 2)"
  "Defaults_logLevel (Some ''1'') (Some ''warn'') None = Num (Fin 4)"
  "Defaults_logLevel None (Some ''WARN'') (Some ''debug'') = Num (Fin 1)"
  "Defaults_logLevel None None (Some ''3'') = Num (Fin 3)"
  "Defaults_logLevel None (Some ''verbose'') None = Str ''verbose''"
  by code_simp+

text \<open>
  C7. Level resolution is case-insensitive for level names: every letter-case variant of
  a level name resolves to the ordinal of that name. And it is the identity on the valid
  ordinals: each of the numbers 0 to 4 resolves to itself. Both hold for every default.
\<close>

theorem getLevelNumber_case_insensitive:
  "((name, n) \<in> set LevelNums \<and> case_variant t name \<longrightarrow>
      getLevelNumber dflt (Str t) = Num (Fin (of_nat n)))
   \<and> (k \<le> 4 \<longrightarrow> getLevelNumber dflt (Num (Fin (of_nat k))) = Num (Fin (of_nat k)))"
proof (intro conjI impI)
  assume a: "(name, n) \<in> set LevelNums \<and> case_variant t name"
  then have m: "(name, n) \<in> set LevelNums" and v: "list_all2 case_variant_char t name"
    by (simp_all add: case_variant_def)
  from m have "list_all lower_letter name" by (rule level_name_lower)
  with v have "toLowerCase t = name" by (rule toLowerCase_variant)
  then show "getLevelNumber dflt (Str t) = Num (Fin (of_nat n))"
    using m by (rule getLevelNumber_lowered)
next
  assume "k \<le> 4"
  then show "getLevelNumber dflt (Num (Fin (of_nat k))) = Num (Fin (of_nat k))"
    by (simp add: getLevelNumber_ordinal)
qed

theorem getLevelNumber_case_insensitive_witness:
  "(''warn'', 1) \<in> set LevelNums \<and> case_variant ''WaRn'' ''warn''
   \<and> getLevelNumber (Num (Fin 2)) (Str ''WaRn'') = Num (Fin 1)
   \<and> getLevelNumber (Num (Fin 2)) (Num (Fin 3)) = Num (Fin 3)"
  using getLevelNumber_case_insensitive [of "''warn''" 1 "''WaRn''" "Num (Fin 2)" 3]
  by (simp add: LevelNums_def case_variant_def case_variant_char_def lower_letter_def)

lemma decimal_small:
  "decimal 0 = ''0''" "decimal 1 = ''1''" "decimal 2 = ''2''" "decimal 3 = ''3''" "decimal 4 = ''4''" "decimal (Suc 0) = ''1''"
  by code_simp+

lemma LevelNames_own_eq:
  "LevelNames_own =
     [(''0'', Str ''error''), (''1'', Str ''warn''), (''2'', Str ''info''), (''3'', Str ''log''),
      (''4'', Str ''debug''), (''length'', Num (Fin 5))]"
  by code_simp

lemma ToNumber_small:
  "ToNumber (Str ''0'') = Fin 0" "ToNumber (Str ''1'') = Fin 1" "ToNumber (Str ''2'') = Fin 2"
  "ToNumber (Str ''3'') = Fin 3" "ToNumber (Str ''4'') = Fin 4"
  by code_simp+

lemma index_string:
  assumes "k < 5"
  shows "\<not> in_LevelNums (Str (decimal k))" and "in_LevelNames (Str (decimal k))"
    and "ToNumber (Str (decimal k)) = Fin (of_nat k)"
    and "decimal k \<notin> set LevelNames"
    and "toLowerCase (decimal k) = decimal k"
proof -
  from assms have k: "k = 0 \<or> k = 1 \<or> k = 2 \<or> k = 3 \<or> k = 4" by arith
  from k show "\<not> in_LevelNums (Str (decimal k))"
    by (elim disjE) (simp_all add: in_LevelNums_def ToPropertyKey_def decimal_small LevelNums_def
      Object_prototype_keys_def)
  from k show "in_LevelNames (Str (decimal k))"
    by (elim disjE) (simp_all add: in_LevelNames_def ToPropertyKey_def decimal_small
      LevelNames_own_eq)
  from k show "ToNumber (Str (decimal k)) = Fin (of_nat k)"
    by (elim disjE) (simp_all add: decimal_small ToNumber_small)
  from k show "decimal k \<notin> set LevelNames"
    by (elim disjE) (simp_all add: decimal_small LevelNames_eq)
  from k show "toLowerCase (decimal k) = decimal k"
    by (elim disjE) (simp_all add: decimal_small toLowerCase_def toLowerCase_char_def)
qed

text \<open>
  Lowering the case of a numeric string does not change the number it converts to:
  the letters of a numeric literal (the exponent mark, the radix prefixes, the
  hexadecimal digits) are read in either case.
\<close>

lemma code_lower:
  "(of_char (toLowerCase_char c) :: nat) =
     (if 65 \<le> (of_char c :: nat) \<and> (of_char c :: nat) \<le> 90 then of_char c + 32 else of_char c)"
  by (simp add: toLowerCase_char_def Let_def)

lemma lower_eq_iff:
  assumes "\<not> (65 \<le> (of_char x :: nat) \<and> (of_char x :: nat) \<le> 90)"
  shows "(toLowerCase_char c = x) =
           (c = x \<or> (97 \<le> (of_char x :: nat) \<and> (of_char x :: nat) \<le> 122 \<and> (of_char c :: nat) + 32 = of_char x))"
proof -
  have "(toLowerCase_char c = x) = ((of_char (toLowerCase_char c) :: nat) = of_char x)"
    by simp
  also have "\<dots> = (c = x \<or> (97 \<le> (of_char x :: nat) \<and> (of_char x :: nat) \<le> 122 \<and> (of_char c :: nat) + 32 = of_char x))"
  proof -
    have "(c = x) = ((of_char c :: nat) = of_char x)" by simp
    then show ?thesis using assms unfolding code_lower by (auto simp del: of_char_eq_iff)
  qed
  finally show ?thesis .
qed

lemma lower_never_upper:
  assumes "65 \<le> (of_char x :: nat)" and "(of_char x :: nat) \<le> 90"
  shows "toLowerCase_char c \<noteq> x"
proof
  assume "toLowerCase_char c = x"
  then have "(of_char (toLowerCase_char c) :: nat) = of_char x" by simp
  with assms show False unfolding code_lower by (simp split: if_splits)
qed

lemma char_code_eq: "(c = d) = ((of_char c :: nat) = of_char d)"
  by simp

lemma lower_fixed:
  "(toLowerCase_char c = CHR ''0'') = (c = CHR ''0'')"
  "(toLowerCase_char c = CHR ''-'') = (c = CHR ''-'')"
  "(toLowerCase_char c = CHR ''+'') = (c = CHR ''+'')"
  "(toLowerCase_char c = CHR ''.'') = (c = CHR ''.'')"
  "(toLowerCase_char c = CHR ''e'') = (c = CHR ''e'' \<or> c = CHR ''E'')"
  "(toLowerCase_char c = CHR ''x'') = (c = CHR ''x'' \<or> c = CHR ''X'')"
  "(toLowerCase_char c = CHR ''o'') = (c = CHR ''o'' \<or> c = CHR ''O'')"
  "(toLowerCase_char c = CHR ''b'') = (c = CHR ''b'' \<or> c = CHR ''B'')"
  by (simp_all add: lower_eq_iff) (simp_all add: char_code_eq [of c] del: of_char_eq_iff)

lemma lower_not:
  "toLowerCase_char c \<noteq> CHR ''E''" "toLowerCase_char c \<noteq> CHR ''X''"
  "toLowerCase_char c \<noteq> CHR ''O''" "toLowerCase_char c \<noteq> CHR ''B''"
  "toLowerCase_char c \<noteq> CHR ''I''"
  by (rule lower_never_upper; simp)+

lemma is_white_lower: "is_white (toLowerCase_char c) = is_white c"
  unfolding is_white_def code_lower by auto

lemma digit_value_lower: "digit_value (toLowerCase_char c) = digit_value c"
  unfolding digit_value_def Let_def code_lower by auto

lemma is_digit_lower: "is_digit base (toLowerCase_char c) = is_digit base c"
  by (simp add: is_digit_def digit_value_lower)


lemma trim_lower: "trim (toLowerCase s) = toLowerCase (trim s)"
proof -
  have w: "is_white \<circ> toLowerCase_char = is_white"
    by (simp add: fun_eq_iff is_white_lower)
  show ?thesis
    by (simp add: trim_def toLowerCase_def dropWhile_map rev_map w)
qed

lemma digits_lower:
  "takeWhile (is_digit base) (toLowerCase s) = toLowerCase (takeWhile (is_digit base) s)"
  "dropWhile (is_digit base) (toLowerCase s) = toLowerCase (dropWhile (is_digit base) s)"
  "list_all (is_digit base) (toLowerCase s) = list_all (is_digit base) s"
proof -
  have d: "is_digit base \<circ> toLowerCase_char = is_digit base"
    by (simp add: fun_eq_iff is_digit_lower)
  show "takeWhile (is_digit base) (toLowerCase s) = toLowerCase (takeWhile (is_digit base) s)"
    by (simp add: toLowerCase_def takeWhile_map d)
  show "dropWhile (is_digit base) (toLowerCase s) = toLowerCase (dropWhile (is_digit base) s)"
    by (simp add: toLowerCase_def dropWhile_map d)
  show "list_all (is_digit base) (toLowerCase s) = list_all (is_digit base) s"
    by (simp add: toLowerCase_def list_all_iff is_digit_lower)
qed

lemma digits_value_lower: "digits_value base (toLowerCase s) = digits_value base s"
  by (simp add: digits_value_def toLowerCase_def foldl_map digit_value_lower)

lemma toLowerCase_simps:
  "toLowerCase [] = []" "toLowerCase (c # s) = toLowerCase_char c # toLowerCase s"
  "(toLowerCase s = []) = (s = [])" "length (toLowerCase s) = length s"
  "toLowerCase (s @ t) = toLowerCase s @ toLowerCase t"
  by (simp_all add: toLowerCase_def)

lemma digits_value_lower_Cons:
  "digits_value base (toLowerCase_char d # toLowerCase u) = digits_value base (d # u)"
  "digits_value base [toLowerCase_char d] = digits_value base [d]"
  using digits_value_lower [of base "d # u"] digits_value_lower [of base "[d]"]
  by (simp_all add: toLowerCase_simps)

lemma radix_literal_lower: "radix_literal base (toLowerCase s) = radix_literal base s"
  by (simp add: radix_literal_def digits_lower digits_value_lower toLowerCase_simps)

lemma exponent_part_lower: "exponent_part (toLowerCase s) = exponent_part s"
proof (cases s)
  case Nil
  then show ?thesis by (simp add: exponent_part_def toLowerCase_simps)
next
  case (Cons c t)
  show ?thesis
  proof (cases t)
    case Nil
    with Cons show ?thesis
      by (simp add: exponent_part_def toLowerCase_simps lower_fixed lower_not)
  next
    case (Cons d u)
    with \<open>s = c # t\<close> show ?thesis
      by (simp add: exponent_part_def toLowerCase_simps lower_fixed lower_not digits_lower
          digits_value_lower digits_value_lower_Cons is_digit_lower)
  qed
qed


lemma not_Infinity_lower: "toLowerCase s \<noteq> ''Infinity''"
proof
  assume "toLowerCase s = ''Infinity''"
  then obtain c t where "s = c # t" and "toLowerCase_char c = CHR ''I''"
    by (cases s) (simp_all add: toLowerCase_simps)
  then show False by (simp add: lower_not)
qed

lemma unsigned_decimal_lower:
  assumes "unsigned_decimal s = Fin q"
  shows "unsigned_decimal (toLowerCase s) = Fin q"
proof -
  from assms have ne: "s \<noteq> ''Infinity''"
    by (auto simp add: unsigned_decimal_def)
  define ip where "ip = takeWhile (is_digit 10) s"
  define r1 where "r1 = dropWhile (is_digit 10) s"
  define body where "body = (\<lambda>ip fp r2.
       if ip = [] \<and> fp = [] then NaN
       else (case exponent_part r2 of
               None \<Rightarrow> NaN
             | Some e \<Rightarrow>
                 Fin (scale10 (of_nat (digits_value 10 (ip @ fp)) / 10 ^ length fp) e)))"
  define parts where "parts = (\<lambda>r1.
       case r1 of
         c # t \<Rightarrow> if c = CHR ''.''
                  then (takeWhile (is_digit 10) t, dropWhile (is_digit 10) t)
                  else ([], r1)
       | [] \<Rightarrow> ([], r1))"
  have u: "unsigned_decimal s = body ip (fst (parts r1)) (snd (parts r1))"
    using ne by (simp add: unsigned_decimal_def ip_def r1_def body_def parts_def Let_def case_prod_beta)
  have u': "unsigned_decimal (toLowerCase s) =
              body (toLowerCase ip) (fst (parts (toLowerCase r1))) (snd (parts (toLowerCase r1)))"
    by (simp add: unsigned_decimal_def not_Infinity_lower digits_lower ip_def r1_def body_def
        parts_def Let_def case_prod_beta)
  have p: "parts (toLowerCase r1) = (toLowerCase (fst (parts r1)), toLowerCase (snd (parts r1)))"
  proof (cases r1)
    case Nil
    then show ?thesis by (simp add: parts_def toLowerCase_simps)
  next
    case (Cons c t)
    then show ?thesis
      by (simp add: parts_def toLowerCase_simps lower_fixed digits_lower)
  qed
  have b: "body (toLowerCase a) (toLowerCase f) (toLowerCase r) = body a f r" for a f r
  proof -
    have dv: "digits_value 10 (toLowerCase a @ toLowerCase f) = digits_value 10 (a @ f)"
      using digits_value_lower [of 10 "a @ f"] by (simp add: toLowerCase_simps)
    show ?thesis
      by (simp add: body_def toLowerCase_simps(3,4) exponent_part_lower dv split: option.split)
  qed
  show ?thesis
    using assms unfolding u u' p by (simp add: b)
qed

lemma negate_Fin: "negate x = Fin q \<Longrightarrow> \<exists>p. x = Fin p \<and> q = - p"
  by (cases x) simp_all




lemma prefix_test_lower:
  "(toLowerCase u \<noteq> [] \<and> hd (toLowerCase u) \<in> {CHR ''x'', CHR ''X''}) = (u \<noteq> [] \<and> hd u \<in> {CHR ''x'', CHR ''X''})"
  "(toLowerCase u \<noteq> [] \<and> hd (toLowerCase u) \<in> {CHR ''o'', CHR ''O''}) = (u \<noteq> [] \<and> hd u \<in> {CHR ''o'', CHR ''O''})"
  "(toLowerCase u \<noteq> [] \<and> hd (toLowerCase u) \<in> {CHR ''b'', CHR ''B''}) = (u \<noteq> [] \<and> hd u \<in> {CHR ''b'', CHR ''B''})"
  "tl (toLowerCase u) = toLowerCase (tl u)"
  by (cases u; simp add: toLowerCase_simps lower_fixed lower_not)+

lemma StringToNumber_lower:
  assumes "StringToNumber s = Fin q"
  shows "StringToNumber (toLowerCase s) = Fin q"
proof -
  define t where "t = trim s"
  have t': "trim (toLowerCase s) = toLowerCase t"
    by (simp add: trim_lower t_def)
  show ?thesis
  proof (cases t)
    case Nil
    with assms show ?thesis
      by (simp add: StringToNumber_def t' t_def [symmetric] toLowerCase_simps)
  next
    case (Cons c u)
    define hex where "hex = (c = CHR ''0'' \<and> u \<noteq> [] \<and> hd u \<in> {CHR ''x'', CHR ''X''})"
    define oct where "oct = (c = CHR ''0'' \<and> u \<noteq> [] \<and> hd u \<in> {CHR ''o'', CHR ''O''})"
    define bin where "bin = (c = CHR ''0'' \<and> u \<noteq> [] \<and> hd u \<in> {CHR ''b'', CHR ''B''})"
    have a: "StringToNumber s =
               (if hex then radix_literal 16 (tl u)
                else if oct then radix_literal 8 (tl u)
                else if bin then radix_literal 2 (tl u)
                else if c = CHR ''-'' then negate (unsigned_decimal u)
                else if c = CHR ''+'' then unsigned_decimal u
                else unsigned_decimal (c # u))"
      unfolding StringToNumber_def t_def [symmetric] Cons Let_def list.case hex_def oct_def bin_def
      by (rule refl)
    have b: "StringToNumber (toLowerCase s) =
               (if hex then radix_literal 16 (tl u)
                else if oct then radix_literal 8 (tl u)
                else if bin then radix_literal 2 (tl u)
                else if c = CHR ''-'' then negate (unsigned_decimal (toLowerCase u))
                else if c = CHR ''+'' then unsigned_decimal (toLowerCase u)
                else unsigned_decimal (toLowerCase (c # u)))"
      unfolding StringToNumber_def t' Cons Let_def toLowerCase_simps(2) list.case
        lower_fixed prefix_test_lower radix_literal_lower hex_def oct_def bin_def
      by (rule refl)
    consider (radix) "hex \<or> oct \<or> bin"
      | (minus) "\<not> hex" "\<not> oct" "\<not> bin" "c = CHR ''-''"
      | (plus) "\<not> hex" "\<not> oct" "\<not> bin" "c \<noteq> CHR ''-''" "c = CHR ''+''"
      | (plain) "\<not> hex" "\<not> oct" "\<not> bin" "c \<noteq> CHR ''-''" "c \<noteq> CHR ''+''"
      by blast
    then show ?thesis
    proof cases
      case radix
      with assms show ?thesis unfolding a b by auto
    next
      case minus
      with assms a have "negate (unsigned_decimal u) = Fin q" by simp
      then obtain p where "unsigned_decimal u = Fin p" and "q = - p"
        by (auto dest: negate_Fin)
      then have "negate (unsigned_decimal (toLowerCase u)) = Fin q"
        by (simp add: unsigned_decimal_lower)
      with minus show ?thesis unfolding b by simp
    next
      case plus
      with assms a have "unsigned_decimal u = Fin q" by simp
      then have "unsigned_decimal (toLowerCase u) = Fin q" by (rule unsigned_decimal_lower)
      with plus show ?thesis unfolding b by simp
    next
      case plain
      with assms a have "unsigned_decimal (c # u) = Fin q" by simp
      then have "unsigned_decimal (toLowerCase (c # u)) = Fin q" by (rule unsigned_decimal_lower)
      with plain show ?thesis unfolding b by simp
    qed
  qed
qed

lemma keys_not_numeric:
  "list_all (\<lambda>k. StringToNumber k = NaN)
     (map fst LevelNums @ Object_prototype_keys @ [''length''] @ Array_prototype_keys)"
  by code_simp

lemma key_not_numeric:
  assumes "StringToNumber x = Fin q"
  shows "x \<notin> set (map fst LevelNums)" and "x \<notin> set Object_prototype_keys"
    and "x \<noteq> ''length''" and "x \<notin> set Array_prototype_keys"
proof -
  have all: "\<forall>k \<in> set (map fst LevelNums @ Object_prototype_keys @ [''length''] @ Array_prototype_keys).
               StringToNumber k = NaN"
    using keys_not_numeric unfolding list_all_iff .
  from assms have ne: "StringToNumber x \<noteq> NaN" by simp
  from all ne show "x \<notin> set (map fst LevelNums)" by auto
  from all ne show "x \<notin> set Object_prototype_keys" by auto
  from all ne show "x \<noteq> ''length''" by auto
  from all ne show "x \<notin> set Array_prototype_keys" by auto
qed

lemma lower_digit:
  assumes "48 \<le> (of_char x :: nat)" and "(of_char x :: nat) \<le> 57"
  shows "(toLowerCase_char c = x) = (c = x)"
  using assms by (subst lower_eq_iff) simp_all

lemma lower_decimal:
  assumes "toLowerCase s = decimal j" and "j < 5"
  shows "s = decimal j"
proof -
  from assms(2) have "decimal j = [char_of (48 + j)]" by (simp add: decimal_digit)
  with assms(1) have m: "map toLowerCase_char s = [char_of (48 + j)]"
    by (simp add: toLowerCase_def)
  then obtain c where s: "s = [c]" and c: "toLowerCase_char c = char_of (48 + j)"
    by (cases s) auto
  from assms(2) have "48 \<le> (of_char (char_of (48 + j) :: char) :: nat)"
    and "(of_char (char_of (48 + j) :: char) :: nat) \<le> 57"
    by simp_all
  then have "(toLowerCase_char c = char_of (48 + j)) = (c = char_of (48 + j))"
    by (rule lower_digit)
  with c have "c = char_of (48 + j)" by simp
  with s \<open>decimal j = [char_of (48 + j)]\<close> show ?thesis by simp
qed


lemma in_LevelNums_numeric:
  assumes "StringToNumber x = Fin q"
  shows "\<not> in_LevelNums (Str x)"
  using key_not_numeric(1,2) [OF assms] by (simp add: in_LevelNums_def ToPropertyKey_def)

lemma in_LevelNames_numeric:
  assumes "StringToNumber x = Fin q"
  shows "in_LevelNames (Str x) = (\<exists>j<5. x = decimal j)"
proof -
  have "in_LevelNames (Str x) = (x \<in> set [''0'', ''1'', ''2'', ''3'', ''4''])"
    using key_not_numeric(2,3,4) [OF assms]
    by (simp add: in_LevelNames_def ToPropertyKey_def LevelNames_own_eq)
  also have "\<dots> = (\<exists>j<5. x = decimal j)"
  proof
    assume "x \<in> set [''0'', ''1'', ''2'', ''3'', ''4'']"
    then consider "x = decimal 0" | "x = decimal 1" | "x = decimal 2" | "x = decimal 3"
      | "x = decimal 4"
      by (auto simp add: decimal_small)
    then show "\<exists>j<5. x = decimal j"
    proof cases
      case 1 then show ?thesis by (intro exI [of _ 0]) simp
    next
      case 2 then show ?thesis by (intro exI [of _ 1]) simp
    next
      case 3 then show ?thesis by (intro exI [of _ 2]) simp
    next
      case 4 then show ?thesis by (intro exI [of _ 3]) simp
    next
      case 5 then show ?thesis by (intro exI [of _ 4]) simp
    qed
  next
    assume "\<exists>j<5. x = decimal j"
    then obtain j where j: "j < 5" and x: "x = decimal j" by blast
    from j have "j = 0 \<or> j = 1 \<or> j = 2 \<or> j = 3 \<or> j = 4" by arith
    with x show "x \<in> set [''0'', ''1'', ''2'', ''3'', ''4'']"
      by (elim disjE) (simp_all add: decimal_small)
  qed
  finally show ?thesis .
qed

lemma js_lt_numeric:
  assumes "StringToNumber x = Fin q"
  shows "js_lt (Str x) (Num (Fin 0)) = (q < 0)"
  using assms by (simp add: js_lt_def ToPrimitive_def ToNumber_def)

text \<open>
  C8, as stated, fails. The string \<^verbatim>\<open>02\<close> is a numeric string that denotes the integer 2
  and matches no level name, but it is no index of the array of level names: it resolves
  to the default (here 4), not to the number 2.
\<close>

theorem getLevelNumber_numeric_string_counterexample:
  "StringToNumber ''02'' = Fin 2 \<and> ''02'' \<notin> set LevelNames
   \<and> getLevelNumber (Num (Fin 4)) (Str ''02'') = Num (Fin 4)
   \<and> getLevelNumber (Num (Fin 4)) (Str ''02'') \<noteq> Num (StringToNumber ''02'')"
  by code_simp

text \<open>
  C8, amended. Let \<open>s\<close> be a numeric string that denotes an integer \<open>k\<close> from 0 to 4. It
  matches no level name and is no key of the table of ordinals. It passes the index test
  \<^verbatim>\<open>value in LevelNames\<close> exactly when it is the decimal numeral of \<open>k\<close>, one of
  \<^verbatim>\<open>0\<close> to \<^verbatim>\<open>4\<close>: then \<^verbatim>\<open>getLevelNumber\<close> returns the string coerced to a number,
  which is \<open>k\<close>. In every other spelling (a leading zero, a sign, white space, a
  fraction, an exponent, a radix prefix) it fails the index test and resolves to the
  default.
\<close>

theorem getLevelNumber_numeric_string:
  assumes "StringToNumber s = Fin (of_nat k)" and "k < 5"
  shows "getLevelNumber dflt (Str s) = (if s = decimal k then Num (ToNumber (Str s)) else dflt)
       \<and> ToNumber (Str s) = Fin (of_nat k)
       \<and> in_LevelNames (Str (toLowerCase s)) = (s = decimal k)
       \<and> \<not> in_LevelNums (Str (toLowerCase s))
       \<and> s \<notin> set LevelNames"
proof -
  let ?x = "toLowerCase s"
  from assms(1) have x: "StringToNumber ?x = Fin (of_nat k)" by (rule StringToNumber_lower)
  have n: "ToNumber (Str s) = Fin (of_nat k)"
    using assms(1) by (simp add: ToNumber_def ToPrimitive_def)
  have nx: "ToNumber (Str ?x) = Fin (of_nat k)"
    using x by (simp add: ToNumber_def ToPrimitive_def)
  have nums: "\<not> in_LevelNums (Str ?x)" using x by (rule in_LevelNums_numeric)
  have names: "in_LevelNames (Str ?x) = (s = decimal k)"
  proof -
    have "(\<exists>j<5. ?x = decimal j) = (s = decimal k)"
    proof
      assume "\<exists>j<5. ?x = decimal j"
      then obtain j where j: "j < 5" and xj: "?x = decimal j" by blast
      from xj j have sj: "s = decimal j" by (rule lower_decimal)
      from j have "ToNumber (Str (decimal j)) = Fin (of_nat j)" by (rule index_string)
      with sj n have "(of_nat j :: rat) = of_nat k" by simp
      then have "j = k" by simp
      with sj show "s = decimal k" by simp
    next
      assume "s = decimal k"
      with assms(2) have "?x = decimal k" by (simp add: index_string)
      with assms(2) show "\<exists>j<5. ?x = decimal j" by blast
    qed
    with in_LevelNames_numeric [OF x] show ?thesis by simp
  qed
  have neg: "\<not> js_lt (Str ?x) (Num (Fin 0))"
    using js_lt_numeric [OF x] by simp
  have res: "getLevelNumber dflt (Str s) = (if s = decimal k then Num (ToNumber (Str ?x)) else dflt)"
    using nums names neg by (simp add: getLevelNumber_def Is_String_def)
  have res': "getLevelNumber dflt (Str s) = (if s = decimal k then Num (ToNumber (Str s)) else dflt)"
    unfolding res nx n ..
  have level: "s \<notin> set LevelNames"
    using key_not_numeric(1) [OF assms(1)] by (simp add: LevelNames_eq LevelNums_def)
  from res' n names nums level show ?thesis by (intro conjI)
qed

theorem getLevelNumber_numeric_string_witness:
  "StringToNumber ''3'' = Fin (of_nat 3) \<and> (3::nat) < 5 \<and> decimal 3 = ''3''
   \<and> getLevelNumber (Num (Fin 4)) (Str ''3'') = Num (Fin 3)
   \<and> StringToNumber ''02'' = Fin (of_nat 2) \<and> decimal 2 = ''2''
   \<and> getLevelNumber (Num (Fin 4)) (Str ''02'') = Num (Fin 4)
   \<and> \<not> in_LevelNames (Str ''02'')"
proof -
  have a: "StringToNumber ''3'' = Fin (of_nat 3)" by code_simp
  have b: "StringToNumber ''02'' = Fin (of_nat 2)" by code_simp
  have l: "toLowerCase ''02'' = ''02''" by code_simp
  from getLevelNumber_numeric_string [OF a, of "Num (Fin 4)"]
    getLevelNumber_numeric_string [OF b, of "Num (Fin 4)"] a b l
  show ?thesis by (simp add: decimal_small)
qed

text \<open>Other spellings of the integers 1 to 3, each resolved to the default.\<close>

lemma getLevelNumber_other_spellings:
  "getLevelNumber dflt (Str '' 2'') = dflt" "getLevelNumber dflt (Str ''2.0'') = dflt"
  "getLevelNumber dflt (Str ''1e0'') = dflt" "getLevelNumber dflt (Str ''+3'') = dflt"
  "getLevelNumber dflt (Str ''0x2'') = dflt" "getLevelNumber dflt (Str ''3 '') = dflt"
  by code_simp+

text \<open>
  C2. An input that is no level name, no number or numeric string of an ordinal and no
  negative number should resolve to the default. The word \<^verbatim>\<open>length\<close> is such an input,
  but it is a property of the array of level names, so the index test accepts it and the
  result is the string coerced to a number, \<^verbatim>\<open>NaN\<close>, whatever the default is (here 2).
  As a threshold it gates nothing: a debug call, silent under the threshold 2, writes.
\<close>

theorem getLevelNumber_length:
  "getLevelNumber (Num (Fin 2)) (Str ''length'') = Num NaN \<and> Num NaN \<noteq> Num (Fin 2)
   \<and> log_dispatch (Num (Fin 2)) (set_logLevel example_logger (Num (Fin 2))) (Str ''debug'') [] = (None, [])
   \<and> writes (snd (log_dispatch (Num (Fin 2)) (set_logLevel example_logger (Str ''length''))
                      (Str ''debug'') [])) \<noteq> []"
  by code_simp


section \<open>The dispatch\<close>

lemma writes_append: "writes (xs @ ys) = writes xs @ writes ys"
  by (induction xs rule: writes.induct) simp_all

lemma resolve_bound:
  assumes "(name, n) \<in> set LevelNums" and "v = Str name \<or> v = Num (Fin (of_nat n))"
  shows "getLevelNumber dflt v = Num (Fin (of_nat n))"
  using assms getLevelNumber_lower_name getLevelNumber_ordinal ordinal_bound by blast

lemma js_lt_Fin: "js_lt (Num (Fin a)) (Num (Fin b)) = (a < b)"
  by (simp add: js_lt_def ToPrimitive_def ToNumber_def)

lemma js_gt_Fin: "js_gt (Num (Fin a)) (Num (Fin b)) = (b < a)"
  by (simp add: js_gt_def js_lt_Fin)

lemma get_logLevel_configured:
  assumes "- 1 \<le> T" and "T \<le> 4" and "logLevel lg = Num (Fin (of_int T))"
  shows "get_logLevel dflt lg = Num (Fin (of_int T))"
proof (cases "T = - 1")
  case True
  with assms(3) show ?thesis by (simp add: get_logLevel_def getLevelNumber_minus_one)
next
  case False
  with assms(1,2) have small: "nat T < 5" and nonneg: "0 \<le> T" by simp_all
  from getLevelNumber_ordinal [OF small, of dflt] nonneg
  have "getLevelNumber dflt (Num (Fin (of_int T))) = Num (Fin (of_int T))" by simp
  with assms(3) show ?thesis by (simp add: get_logLevel_def)
qed

lemma LevelNames_get_ordinal:
  assumes "(name, n) \<in> set LevelNums"
  shows "LevelNames_get (Num (Fin (of_nat n))) = Str name"
  using assms
  by (auto simp add: LevelNums_def LevelNames_get_def ToPropertyKey_def NumberToString_def
      decimal_small LevelNames_own_eq)

lemma log_dispatch_gated:
  assumes "js_gt (getLevelNumber dflt v) (get_logLevel dflt lg)"
  shows "log_dispatch dflt lg v args = (None, [])"
  using assms by (simp add: log_dispatch_def)

lemma writes_run_prelog: "writes (snd (run_prelog lg nm args)) = []"
  by (simp add: run_prelog_def Let_def split: prelog_opt.split)

lemma writes_getOrCall: "writes (snd (getOrCall p nm)) = []"
  by (simp add: getOrCall_def split: prefix_opt.split)

lemma writes_Logger_format: "writes (snd (Logger_format lg xs)) = []"
  by (simp add: Logger_format_def)

lemma log_dispatch_admitted:
  assumes res: "getLevelNumber dflt v = Num (Fin q)"
    and gate: "\<not> js_gt (Num (Fin q)) (get_logLevel dflt lg)"
  shows "\<exists>calls p b. writes calls = [] \<and>
           log_dispatch dflt lg v args =
             andThen (None, calls)
               (andThen
                  (if p \<noteq> []
                   then (if q < 2 then Logger_ewrite else Logger_write) lg
                          (p @ (if b \<noteq> [] then '' '' else []))
                   else (None, []))
                  ((if q < 2 then Logger_ewrite else Logger_write) lg (b @ newline)))"
proof -
  let ?nm = "LevelNames_get (Num (Fin q))"
  let ?a = "run_prelog lg ?nm args"
  let ?g = "getOrCall (prefix lg) ?nm"
  let ?p = "if toArray (fst ?g) \<noteq> [] then Logger_format lg (toArray (fst ?g)) else ([], [])"
  let ?b = "if fst ?a \<noteq> [] then Logger_format lg (fst ?a) else ([], [])"
  let ?calls = "snd ?a @ snd ?g @ snd ?p @ snd ?b"
  have eq: "log_dispatch dflt lg v args =
             andThen (None, ?calls)
               (andThen
                  (if fst ?p \<noteq> []
                   then (if q < 2 then Logger_ewrite else Logger_write) lg
                          (fst ?p @ (if fst ?b \<noteq> [] then '' '' else []))
                   else (None, []))
                  ((if q < 2 then Logger_ewrite else Logger_write) lg (fst ?b @ newline)))"
    unfolding log_dispatch_def Let_def res js_lt_Fin case_prod_beta
    using gate by simp
  have w: "writes ?calls = []"
    by (simp add: writes_append writes_run_prelog writes_getOrCall writes_Logger_format)
  show ?thesis
    by (intro exI conjI) (rule w, rule eq)
qed

lemma log_dispatch_writes:
  assumes res: "getLevelNumber dflt v = Num (Fin q)"
    and gate: "\<not> js_gt (Num (Fin q)) (get_logLevel dflt lg)"
    and so: "stdout lg = Stream so" and se: "stderr lg = Stream se"
  shows "fst (log_dispatch dflt lg v args) = None \<and>
         (\<exists>p b. writes (snd (log_dispatch dflt lg v args)) = p @ [(if q < 2 then se else so, b @ newline)]
                \<and> (\<forall>x \<in> set p. fst x = (if q < 2 then se else so)))"
proof -
  from log_dispatch_admitted [OF res gate, of args]
  obtain calls p b where w: "writes calls = []"
    and eq: "log_dispatch dflt lg v args =
             andThen (None, calls)
               (andThen
                  (if p \<noteq> []
                   then (if q < 2 then Logger_ewrite else Logger_write) lg
                          (p @ (if b \<noteq> [] then '' '' else []))
                   else (None, []))
                  ((if q < 2 then Logger_ewrite else Logger_write) lg (b @ newline)))"
    by blast
  show ?thesis
  proof (cases "p = []")
    case True
    with w show ?thesis
      unfolding eq
      by (simp add: andThen_def Logger_write_def Logger_ewrite_def stream_write_def so se writes_append)
  next
    case False
    with w show ?thesis
      unfolding eq
      by (simp add: andThen_def Logger_write_def Logger_ewrite_def stream_write_def so se writes_append)
  qed
qed

lemma stream_exists: "Is_WriteableStream s \<Longrightarrow> \<exists>i. s = Stream i"
  by (cases s) (simp_all add: Is_WriteableStream_def)

text \<open>
  C1. A level method is the function \<^verbatim>\<open>log\<close> bound to a level, given by its name or
  by its ordinal. For every level, of ordinal \<open>n\<close>, and every configured threshold
  ordinal \<open>T\<close> from -1 to 4, on a logger with writable streams: the call writes to a
  stream if and only if \<open>n \<le> T\<close>; when \<open>n\<close> exceeds \<open>T\<close> the call returns with no
  event at all (no write and no invocation of the prelog, prefix or format callable);
  and the threshold -1 silences every level.
\<close>

theorem log_dispatch_threshold:
  assumes "(name, n) \<in> set LevelNums" and "v = Str name \<or> v = Num (Fin (of_nat n))"
    and "- 1 \<le> T" and "T \<le> 4" and "logLevel lg = Num (Fin (of_int T))"
    and "Is_WriteableStream (stdout lg)" and "Is_WriteableStream (stderr lg)"
  shows "(writes (snd (log_dispatch dflt lg v args)) \<noteq> [] \<longleftrightarrow> int n \<le> T)
       \<and> (\<not> int n \<le> T \<longrightarrow> log_dispatch dflt lg v args = (None, []))
       \<and> (T = - 1 \<longrightarrow> log_dispatch dflt lg v args = (None, []))"
proof -
  from assms(1,2) have res: "getLevelNumber dflt v = Num (Fin (of_nat n))"
    by (rule resolve_bound)
  from assms(3,4,5) have thr: "get_logLevel dflt lg = Num (Fin (of_int T))"
    by (rule get_logLevel_configured)
  have cmp: "js_gt (Num (Fin (of_nat n))) (Num (Fin (of_int T))) = (T < int n)"
    by (simp add: js_gt_Fin) linarith
  from assms(6) obtain so where so: "stdout lg = Stream so"
    using stream_exists by blast
  from assms(7) obtain se where se: "stderr lg = Stream se"
    using stream_exists by blast
  have closed: "log_dispatch dflt lg v args = (None, [])" if "T < int n"
    using that by (intro log_dispatch_gated) (simp add: res thr cmp)
  have opened: "writes (snd (log_dispatch dflt lg v args)) \<noteq> []" if "int n \<le> T"
  proof -
    from that have "\<not> js_gt (Num (Fin (of_nat n))) (get_logLevel dflt lg)"
      by (simp add: thr cmp)
    from log_dispatch_writes [OF res this so se, of args] show ?thesis by auto
  qed
  from closed opened show ?thesis by (cases "int n \<le> T") auto
qed

theorem log_dispatch_threshold_witness:
  "log_dispatch (Num (Fin 2)) example_logger (Str ''debug'') [Prim (Str ''a'')] = (None, [])
   \<and> writes (snd (log_dispatch (Num (Fin 2)) example_logger (Str ''info'') [Prim (Str ''a'')])) \<noteq> []
   \<and> log_dispatch (Num (Fin 2)) (set_logLevel example_logger (Num (Fin (- 1)))) (Num (Fin 0)) [Prim (Str ''a'')] = (None, [])"
  using log_dispatch_threshold [of "''debug''" 4 "Str ''debug''" 2 example_logger "Num (Fin 2)" "[Prim (Str ''a'')]"]
    log_dispatch_threshold [of "''info''" 2 "Str ''info''" 2 example_logger "Num (Fin 2)" "[Prim (Str ''a'')]"]
    log_dispatch_threshold [of "''error''" 0 "Num (Fin 0)" "- 1" "set_logLevel example_logger (Num (Fin (- 1)))"
       "Num (Fin 2)" "[Prim (Str ''a'')]"]
  by (simp add: example_logger_def LevelNums_def Is_WriteableStream_def set_logLevel_def)


text \<open>
  C6. For every admitted level call the destination is determined by the resolved ordinal
  alone: a call at ordinal 0 or 1 (error, warn) writes to the error stream, a call at
  ordinal 2, 3 or 4 (info, log, debug) to the primary stream. Every write of the call
  goes there, and there is one.
\<close>

theorem log_dispatch_destination:
  assumes "(name, n) \<in> set LevelNums" and "v = Str name \<or> v = Num (Fin (of_nat n))"
    and "stdout lg = Stream so" and "stderr lg = Stream se"
    and "\<not> js_gt (Num (Fin (of_nat n))) (get_logLevel dflt lg)"
  shows "writes (snd (log_dispatch dflt lg v args)) \<noteq> []
       \<and> (\<forall>x \<in> set (writes (snd (log_dispatch dflt lg v args))).
             fst x = (if n \<in> {0, 1} then se else so))"
proof -
  from assms(1,2) have res: "getLevelNumber dflt v = Num (Fin (of_nat n))"
    by (rule resolve_bound)
  have two: "((of_nat n :: rat) < 2) = (n \<in> {0, 1})"
    by auto
  let ?d = "if n \<in> {0, 1} then se else so"
  from log_dispatch_writes [OF res assms(5) assms(3) assms(4), of args]
  obtain p b where w: "writes (snd (log_dispatch dflt lg v args)) = p @ [(?d, b @ newline)]"
    and p: "\<forall>x \<in> set p. fst x = ?d"
    unfolding two by blast
  from p have "\<forall>x \<in> set (p @ [(?d, b @ newline)]). fst x = ?d" by simp
  with w show ?thesis by simp
qed

theorem log_dispatch_destination_witness:
  "writes (snd (log_dispatch (Num (Fin 2)) example_logger (Str ''warn'') [Prim (Str ''a'')])) \<noteq> []
   \<and> list_all (\<lambda>x. fst x = 2)
        (writes (snd (log_dispatch (Num (Fin 2)) example_logger (Str ''warn'') [Prim (Str ''a'')])))
   \<and> list_all (\<lambda>x. fst x = 1)
        (writes (snd (log_dispatch (Num (Fin 2)) example_logger (Str ''info'') [Prim (Str ''a'')])))"
proof -
  have thr: "get_logLevel (Num (Fin 2)) example_logger = Num (Fin 2)"
    using getLevelNumber_ordinal [of 2 "Num (Fin 2)"] by (simp add: get_logLevel_def example_logger_def)
  have a: "\<not> js_gt (Num (Fin (of_nat 1))) (get_logLevel (Num (Fin 2)) example_logger)"
    and b: "\<not> js_gt (Num (Fin (of_nat 2))) (get_logLevel (Num (Fin 2)) example_logger)"
    by (simp_all add: thr js_gt_Fin)
  have w: "(''warn'', 1) \<in> set LevelNums" and i: "(''info'', 2) \<in> set LevelNums"
    by (simp_all add: LevelNums_def)
  have so: "stdout example_logger = Stream 1" and se: "stderr example_logger = Stream 2"
    by (simp_all add: example_logger_def)
  from log_dispatch_destination [OF w _ so se a, of "Str ''warn''" "[Prim (Str ''a'')]"]
    log_dispatch_destination [OF i _ so se b, of "Str ''info''" "[Prim (Str ''a'')]"]
  show ?thesis by (simp add: list_all_iff)
qed

text \<open>
  C4. For every argument list and every threshold, \<^verbatim>\<open>print\<close> formats its arguments
  and writes the result followed by one newline to the primary stream, and \<^verbatim>\<open>eprint\<close>
  does the same to the error stream: these two events and no other, so the threshold is
  not consulted and the prelog callable is not invoked.
\<close>

theorem print_unconditional:
  assumes "stdout lg = Stream so" and "stderr lg = Stream se"
  shows "print (set_logLevel lg t) args =
           (None, [CallFormat args, Write so (format lg args @ newline)])
       \<and> eprint (set_logLevel lg t) args =
           (None, [CallFormat args, Write se (format lg args @ newline)])"
  using assms
  by (simp add: print_def eprint_def Logger_format_def Logger_write_def Logger_ewrite_def
      stream_write_def andThen_def set_logLevel_def)

theorem print_unconditional_witness:
  "print (set_logLevel example_logger (Num (Fin (- 1)))) [Prim (Str ''x'')] =
     (None, [CallFormat [Prim (Str ''x'')], Write 1 (''out'' @ newline)])
   \<and> eprint (set_logLevel example_logger (Num (Fin (- 1)))) [Prim (Str ''x'')] =
     (None, [CallFormat [Prim (Str ''x'')], Write 2 (''out'' @ newline)])"
proof -
  have so: "stdout example_logger = Stream 1" and se: "stderr example_logger = Stream 2"
    by (simp_all add: example_logger_def)
  from print_unconditional [OF so se, of "Num (Fin (- 1))" "[Prim (Str ''x'')]"]
  show ?thesis by (simp add: example_logger_def)
qed

lemma log_dispatch_same_threshold:
  assumes "get_logLevel dflt (set_logLevel lg a) = get_logLevel dflt (set_logLevel lg b)"
  shows "log_dispatch dflt (set_logLevel lg a) v args = log_dispatch dflt (set_logLevel lg b) v args"
proof -
  from assms have eq: "get_logLevel dflt (lg\<lparr>logLevel := a\<rparr>) = get_logLevel dflt (lg\<lparr>logLevel := b\<rparr>)"
    by (simp add: set_logLevel_def)
  show ?thesis
    unfolding log_dispatch_def run_prelog_def Logger_format_def Logger_write_def
      Logger_ewrite_def set_logLevel_def Let_def case_prod_beta
    by (simp add: eq)
qed

text \<open>
  C9. The property \<^verbatim>\<open>logLevel\<close> passes through level resolution: after the assignment
  of a level name and after the assignment of its ordinal, reading \<^verbatim>\<open>logLevel\<close> yields
  that ordinal, and every level call has the same outcome, so it is gated identically.
\<close>

theorem logLevel_name_or_ordinal:
  assumes "(name, n) \<in> set LevelNums"
  shows "get_logLevel dflt (set_logLevel lg (Str name)) = Num (Fin (of_nat n))
       \<and> get_logLevel dflt (set_logLevel lg (Num (Fin (of_nat n)))) = Num (Fin (of_nat n))
       \<and> log_dispatch dflt (set_logLevel lg (Str name)) v args
           = log_dispatch dflt (set_logLevel lg (Num (Fin (of_nat n)))) v args"
proof -
  from assms have a: "get_logLevel dflt (set_logLevel lg (Str name)) = Num (Fin (of_nat n))"
    by (simp add: get_logLevel_def set_logLevel_def getLevelNumber_lower_name)
  from assms have "n < 5" by (rule ordinal_bound)
  then have b: "get_logLevel dflt (set_logLevel lg (Num (Fin (of_nat n)))) = Num (Fin (of_nat n))"
    by (simp add: get_logLevel_def set_logLevel_def getLevelNumber_ordinal)
  from a b show ?thesis
    by (simp add: log_dispatch_same_threshold)
qed

theorem logLevel_name_or_ordinal_witness:
  "(''warn'', 1) \<in> set LevelNums
   \<and> get_logLevel (Num (Fin 2)) (set_logLevel example_logger (Str ''warn'')) = Num (Fin 1)
   \<and> get_logLevel (Num (Fin 2)) (set_logLevel example_logger (Num (Fin 1))) = Num (Fin 1)
   \<and> log_dispatch (Num (Fin 2)) (set_logLevel example_logger (Str ''warn'')) (Str ''info'') []
       = log_dispatch (Num (Fin 2)) (set_logLevel example_logger (Num (Fin 1))) (Str ''info'') []"
  using logLevel_name_or_ordinal [of "''warn''" 1 "Num (Fin 2)" example_logger "Str ''info''" "[]"]
  by (simp add: LevelNums_def)


section \<open>Construction and failures\<close>

lemma stream_write_ok: "Is_WriteableStream s \<Longrightarrow> fst (stream_write s f d) = None"
  by (cases s) (simp_all add: Is_WriteableStream_def stream_write_def)


lemma fst_andThen:
  "fst (andThen a b) = (case fst a of Some e \<Rightarrow> Some e | None \<Rightarrow> fst b)"
  by (cases a; cases "fst a") (auto simp add: andThen_def)








text \<open>
  Within the values of the model, a level call on a logger with writable streams raises
  nothing.
\<close>

lemma log_dispatch_no_raise:
  assumes "Is_WriteableStream (stdout lg)" and "Is_WriteableStream (stderr lg)"
  shows "fst (log_dispatch dflt lg v args) = None"
  using assms
  unfolding log_dispatch_def Let_def case_prod_beta
  by (simp add: fst_andThen Logger_write_def Logger_ewrite_def stream_write_ok)







section \<open>The default prelog\<close>

lemma prelog_arg_flag: "snd (prelog_arg cb level args h a) = (h \<or> is_Err a)"
  by (induction cb level args h a rule: prelog_arg.induct)
    (auto simp add: is_Err_def split: arg.splits jsval.splits)

lemma prelog_map_append:
  "prelog_map cb level args h (xs @ ys) =
     prelog_map cb level args h xs @ prelog_map cb level args (h \<or> list_ex is_Err xs) ys"
proof (induction xs arbitrary: h)
  case Nil
  show ?case by simp
next
  case (Cons a xs)
  have "snd (prelog_arg cb level args h a) = (h \<or> is_Err a)" by (rule prelog_arg_flag)
  with Cons show ?case by (simp add: case_prod_beta disj_assoc)
qed

lemma kept_append:
  "kept cb level args h (xs @ ys) =
     kept cb level args h xs @ kept cb level args (h \<or> list_ex is_Err xs) ys"
  by (simp add: kept_def prelog_map_append)

lemma kept_Err:
  "kept cb level args h (Err e # ys) =
     Prim (Str (formatError cb e (list_ex has_throwing args))) # kept cb level args True ys"
  by (simp add: kept_def not_nullish_def)

lemma formatError_lines:
  "formatError cb e True = name_message_line cb e"
  "formatError cb e False = name_message_line cb e @ newline @ stack_line cb e"
  by (simp_all add: formatError_def name_message_line_def stack_line_def display_name_def
      Let_def case_prod_beta)

lemma Defaults_prelog_kept: "Defaults_prelog cb level args = Arr (kept cb level args False args)"
  by (simp add: Defaults_prelog_def kept_def)

lemma run_prelog_Defaults:
  "prelog lg = PrelogFn (Defaults_prelog cb) \<Longrightarrow>
     run_prelog lg level args = (kept cb level args False args, [CallPrelog level args])"
  by (simp add: run_prelog_def Defaults_prelog_kept toArray_def)

text \<open>
  C5. In a level call whose argument list holds an error value, the default prelog
  replaces the error by its rendering, in place. If some argument of the call has a truthy
  \<^verbatim>\<open>throwing\<close> property, the rendering is the styled line \<^verbatim>\<open>name: message\<close> alone, with
  no stack-trace line; if no argument has one, the styled stack trace follows as a second
  line. The list so obtained is the one an admitted call formats.
\<close>

theorem prelog_error_rendering:
  assumes "args = pre @ Err e # post"
  shows "Defaults_prelog cb level args =
           Arr (kept cb level args False pre
                @ Prim (Str (if list_ex has_throwing args then name_message_line cb e
                             else name_message_line cb e @ newline @ stack_line cb e))
                # kept cb level args True post)
       \<and> (prelog lg = PrelogFn (Defaults_prelog cb) \<longrightarrow>
            Arr (fst (run_prelog lg level args)) = Defaults_prelog cb level args)"
proof -
  have "kept cb level args False (pre @ Err e # post) =
          kept cb level args False pre
          @ Prim (Str (formatError cb e (list_ex has_throwing args))) # kept cb level args True post"
    by (simp add: kept_append kept_Err)
  then have "Defaults_prelog cb level args =
           Arr (kept cb level args False pre
                @ Prim (Str (formatError cb e (list_ex has_throwing args)))
                # kept cb level args True post)"
    by (simp add: Defaults_prelog_kept assms [symmetric])
  then show ?thesis
    by (simp add: formatError_lines run_prelog_Defaults Defaults_prelog_kept)
qed

theorem prelog_error_rendering_witness:
  "Defaults_prelog example_collab (Str ''warn'')
     [Prim (Str ''a''), Err example_error, Inst ''marker'' True]
     = Arr [Prim (Str ''<string>a''), Prim (Str ''<name>Error: <message>boom''), Inst ''marker'' True]
   \<and> Defaults_prelog example_collab (Str ''warn'') [Prim (Str ''a''), Err example_error]
     = Arr [Prim (Str ''<string>a''),
            Prim (Str (''<name>Error: <message>boom'' @ newline @ ''<stack>at main''))]"
  using prelog_error_rendering [of "[Prim (Str ''a''), Err example_error, Inst ''marker'' True]"
      "[Prim (Str ''a'')]" example_error "[Inst ''marker'' True]" example_collab "Str ''warn''" example_logger]
    prelog_error_rendering [of "[Prim (Str ''a''), Err example_error]"
      "[Prim (Str ''a'')]" example_error "[]" example_collab "Str ''warn''" example_logger]
  by (simp add: kept_def not_nullish_def has_throwing_def name_message_line_def stack_line_def
      display_name_def example_collab_def example_error_def)


lemma has_throwing_fragment: "has_throwing (Obj [(''throwing'', x)]) = arg_truthy x"
  by (simp add: has_throwing_def)

lemma prelog_arg_fragment_after:
  "prelog_arg cb level args True (Obj [(''throwing'', x)]) = (Prim Null, True)"
  by simp

lemma prelog_arg_fragment_before:
  "not_nullish (fst (prelog_arg cb level args False (Obj [(''throwing'', x)])))"
  "\<not> has_slot cb level ''throwing'' \<or> (\<forall>t. x \<noteq> Prim (Str t)) \<Longrightarrow>
     fst (prelog_arg cb level args False (Obj [(''throwing'', x)])) = Obj [(''throwing'', x)]"
  by (auto simp add: not_nullish_def split: arg.splits jsval.splits)

lemma kept_fragment_after:
  "kept cb level args True (Obj [(''throwing'', x)] # ys) = kept cb level args True ys"
  by (simp add: kept_def not_nullish_def)

lemma kept_fragment_before:
  "kept cb level args False (Obj [(''throwing'', x)] # ys) =
     fst (prelog_arg cb level args False (Obj [(''throwing'', x)])) # kept cb level args False ys"
proof -
  have "snd (prelog_arg cb level args False (Obj [(''throwing'', x)])) = False"
    by (simp only: prelog_arg_flag) (simp add: is_Err_def)
  moreover note prelog_arg_fragment_before(1) [where args = args and x = x and cb = cb and level = level]
  ultimately show ?thesis
    by (simp add: kept_def case_prod_beta del: prelog_arg.simps)
qed

text \<open>
  C10. The decision to suppress the stack trace scans the whole argument list, while the
  dropping of a fragment \<^verbatim>\<open>{throwing: x}\<close> depends on its position. With a truthy
  fragment before the error (and no error before the fragment) the error is rendered
  without its stack trace, and the fragment is not dropped: its image is kept, and it is
  the fragment itself unless the level has a style slot of that name and \<open>x\<close> is a
  string. With the fragment after the error, the error is rendered without its stack
  trace and the fragment is removed from the list.
\<close>

theorem prelog_throwing_position:
  assumes "frag = Obj [(''throwing'', x)]" and "arg_truthy x"
    and "before = pre @ frag # mid @ Err e # post"
    and "after = pre @ Err e # mid @ frag # post"
  shows "(\<not> list_ex is_Err pre \<longrightarrow>
           Defaults_prelog cb level before =
             Arr (kept cb level before False pre
                  @ fst (prelog_arg cb level before False frag)
                  # kept cb level before False mid
                  @ Prim (Str (name_message_line cb e)) # kept cb level before True post)
           \<and> not_nullish (fst (prelog_arg cb level before False frag))
           \<and> (\<not> has_slot cb level ''throwing'' \<or> (\<forall>t. x \<noteq> Prim (Str t)) \<longrightarrow>
                fst (prelog_arg cb level before False frag) = frag))
       \<and> Defaults_prelog cb level after =
             Arr (kept cb level after False pre
                  @ Prim (Str (name_message_line cb e))
                  # kept cb level after True mid @ kept cb level after True post)"
proof -
  have skip_b: "list_ex has_throwing before"
    using assms(2) by (simp add: assms(1,3) has_throwing_fragment)
  have skip_a: "list_ex has_throwing after"
    using assms(2) by (simp add: assms(1,4) has_throwing_fragment)
  have a: "kept cb level A False (pre @ Err e # mid @ frag # post) =
             kept cb level A False pre
             @ Prim (Str (name_message_line cb e))
             # kept cb level A True mid @ kept cb level A True post"
    if "list_ex has_throwing A" for A
    using that
    by (simp add: kept_append kept_Err assms(1) kept_fragment_after formatError_lines)
  have b: "kept cb level A False (pre @ frag # mid @ Err e # post) =
             kept cb level A False pre
             @ fst (prelog_arg cb level A False frag)
             # kept cb level A False mid
             @ Prim (Str (name_message_line cb e)) # kept cb level A True post"
    if "list_ex has_throwing A" and "\<not> list_ex is_Err pre" for A
    using that
    by (simp add: kept_append kept_Err assms(1) kept_fragment_before formatError_lines
        del: prelog_arg.simps)
  have ea: "kept cb level after False after =
              kept cb level after False (pre @ Err e # mid @ frag # post)"
    using assms(4) by (rule arg_cong [where f = "kept cb level after False"])
  have eb: "kept cb level before False before =
              kept cb level before False (pre @ frag # mid @ Err e # post)"
    using assms(3) by (rule arg_cong [where f = "kept cb level before False"])
  have fa: "Defaults_prelog cb level after =
             Arr (kept cb level after False pre
                  @ Prim (Str (name_message_line cb e))
                  # kept cb level after True mid @ kept cb level after True post)"
    unfolding Defaults_prelog_kept ea a [OF skip_a] ..
  have fb: "Defaults_prelog cb level before =
             Arr (kept cb level before False pre
                  @ fst (prelog_arg cb level before False frag)
                  # kept cb level before False mid
                  @ Prim (Str (name_message_line cb e)) # kept cb level before True post)"
    if "\<not> list_ex is_Err pre"
    unfolding Defaults_prelog_kept eb b [OF skip_b that] ..
  have n: "not_nullish (fst (prelog_arg cb level before False frag))"
    unfolding assms(1) by (rule prelog_arg_fragment_before(1))
  have f: "fst (prelog_arg cb level before False frag) = frag"
    if "\<not> has_slot cb level ''throwing'' \<or> (\<forall>t. x \<noteq> Prim (Str t))"
    unfolding assms(1) using that by (rule prelog_arg_fragment_before(2))
  from fa fb n f show ?thesis by blast
qed

theorem prelog_throwing_position_witness:
  "Defaults_prelog example_collab (Str ''warn'')
     [Obj [(''throwing'', Prim (Bool True))], Err example_error]
     = Arr [Obj [(''throwing'', Prim (Bool True))], Prim (Str ''<name>Error: <message>boom'')]
   \<and> Defaults_prelog example_collab (Str ''warn'')
     [Err example_error, Obj [(''throwing'', Prim (Bool True))]]
     = Arr [Prim (Str ''<name>Error: <message>boom'')]"
  using prelog_throwing_position [of "Obj [(''throwing'', Prim (Bool True))]" "Prim (Bool True)"
      "[Obj [(''throwing'', Prim (Bool True))], Err example_error]" "[]" "[]" example_error "[]"
      "[Err example_error, Obj [(''throwing'', Prim (Bool True))]]" example_collab "Str ''warn''"]
  by (simp add: kept_def arg_truthy_def name_message_line_def display_name_def
      example_collab_def example_error_def)


end
